theory Spec2Isabelle
  imports Complex_Main "HOL-Library.Word"
begin

section \<open>Data model of the exporter (main.go)\<close>

text \<open>
  Go strings are byte sequences, so they are HOL strings (lists of 8-bit characters).
  A Go \<open>error\<close> is represented by its message; a call returning \<open>(v, err)\<close> becomes a
  sum with the error on the left.
\<close>

type_synonym error = string

text \<open>\<open>ServerRuntime\<close> and \<open>ServerRuntimesResponse\<close> (main.go, lines 22 to 33).\<close>

record ServerRuntime =
  Name :: string
  State :: string

record ServerRuntimesResponse_Body =
  Items :: "ServerRuntime list"

record ServerRuntimesResponse =
  Body :: ServerRuntimesResponse_Body

text \<open>
  The parts of \<open>http.Request\<close> and \<open>http.Response\<close> the program touches. A header is a
  map from a key to its list of values, as \<open>http.Header\<close> is.
\<close>

type_synonym Header = "string \<rightharpoonup> string list"

record Request =
  Method :: string
  URL :: string
  Header :: Header

record Response =
  StatusCode :: int
  Status :: string
  Body :: string

definition http_StatusOK :: int where
  "http_StatusOK = 200"

text \<open>
  \<open>Header.Set\<close> replaces every value stored under the key by the single new value. The
  library first brings the key into its canonical spelling; the only key the program
  sets, \<open>Authorization\<close>, is already spelled that way.
\<close>

definition Header_Set :: "Header \<Rightarrow> string \<Rightarrow> string \<Rightarrow> Header" where
  "Header_Set h key v = h(key \<mapsto> [v])"

section \<open>Standard base64 (\<open>base64.StdEncoding.EncodeToString\<close>)\<close>

definition encodeStd :: string where
  "encodeStd = ''ABCDEFGHIJKLMNOPQRSTUVWXYZabcdefghijklmnopqrstuvwxyz0123456789+/''"

definition StdPadding :: char where
  "StdPadding = CHR ''=''"

definition encode6 :: "nat \<Rightarrow> char" where
  "encode6 v = encodeStd ! (v mod 64)"

text \<open>
  Three source bytes form a 24-bit group that is written as four characters of the
  alphabet; a remainder of one or two bytes is zero-extended and padded with \<open>=\<close>.
\<close>

fun StdEncoding_EncodeToString :: "string \<Rightarrow> string" where
  "StdEncoding_EncodeToString [] = []"
| "StdEncoding_EncodeToString [a] =
     (let val = (of_char a :: nat) * 65536
      in [encode6 (val div 262144), encode6 (val div 4096), StdPadding, StdPadding])"
| "StdEncoding_EncodeToString [a, b] =
     (let val = (of_char a :: nat) * 65536 + of_char b * 256
      in [encode6 (val div 262144), encode6 (val div 4096), encode6 (val div 64), StdPadding])"
| "StdEncoding_EncodeToString (a # b # c # src) =
     (let val = (of_char a :: nat) * 65536 + of_char b * 256 + of_char c
      in [encode6 (val div 262144), encode6 (val div 4096), encode6 (val div 64), encode6 val])
     @ StdEncoding_EncodeToString src"

text \<open>
  The reference decoder of RFC 4648, section 4, against which the encoder is checked: a
  group of four characters of the alphabet gives three bytes, and a last group may end
  in one or two padding characters. It is not part of the program.
\<close>

primrec index_of :: "'a list \<Rightarrow> 'a \<Rightarrow> nat" where
  "index_of [] y = 0"
| "index_of (x # xs) y = (if x = y then 0 else Suc (index_of xs y))"

definition decode6 :: "char \<Rightarrow> nat option" where
  "decode6 ch = (if ch \<in> set encodeStd then Some (index_of encodeStd ch) else None)"

fun rfc4648_decode :: "string \<Rightarrow> string option" where
  "rfc4648_decode [] = Some []"
| "rfc4648_decode (w # x # y # z # rest) =
     (case (decode6 w, decode6 x) of
        (Some a, Some b) \<Rightarrow>
          if rest = [] \<and> y = StdPadding \<and> z = StdPadding then
            Some [char_of ((a * 262144 + b * 4096) div 65536)]
          else
            (case decode6 y of
               Some c \<Rightarrow>
                 if rest = [] \<and> z = StdPadding then
                   Some [char_of ((a * 262144 + b * 4096 + c * 64) div 65536),
                         char_of ((a * 262144 + b * 4096 + c * 64) div 256)]
                 else
                   (case (decode6 z, rfc4648_decode rest) of
                      (Some d, Some bytes) \<Rightarrow>
                        Some ([char_of ((a * 262144 + b * 4096 + c * 64 + d) div 65536),
                               char_of ((a * 262144 + b * 4096 + c * 64 + d) div 256),
                               char_of (a * 262144 + b * 4096 + c * 64 + d)] @ bytes)
                    | _ \<Rightarrow> None)
             | None \<Rightarrow> None)
      | _ \<Rightarrow> None)"
| "rfc4648_decode _ = None"

section \<open>\<open>basicAuthTransport\<close> (main.go, lines 35 to 46)\<close>

record basicAuthTransport =
  username :: string
  password :: string

text \<open>
  \<open>RoundTrip\<close> writes the header into the request it was given and hands that request to
  \<open>http.DefaultTransport\<close>, which is a parameter here. The result pairs the request as it
  is after the call with what the default transport returned.
\<close>

definition RoundTrip ::
  "basicAuthTransport \<Rightarrow> (Request \<Rightarrow> error + Response) \<Rightarrow> Request
     \<Rightarrow> Request \<times> (error + Response)" where
  "RoundTrip t DefaultTransport_RoundTrip req =
     (let auth = basicAuthTransport.username t @ '':'' @ basicAuthTransport.password t;
          encoded = StdEncoding_EncodeToString auth;
          req' = req\<lparr>Header := Header_Set (Header req) ''Authorization'' (''Basic '' @ encoded)\<rparr>
      in (req', DefaultTransport_RoundTrip req'))"

section \<open>Decimal rendering (\<open>fmt.Sprintf("%d", n)\<close>)\<close>

definition ldigits :: string where
  "ldigits = ''0123456789abcdefx''"

definition digit_char :: "nat \<Rightarrow> char" where
  "digit_char d = ldigits ! d"

fun nat_decimal :: "nat \<Rightarrow> string" where
  "nat_decimal n =
     (if n < 10 then [digit_char n] else nat_decimal (n div 10) @ [digit_char (n mod 10)])"

declare nat_decimal.simps [simp del]

definition Sprintf_d :: "int \<Rightarrow> string" where
  "Sprintf_d n = (if n < 0 then CHR ''-'' # nat_decimal (nat (- n)) else nat_decimal (nat n))"

text \<open>Reading a digit string back, used to state that the rendering loses nothing.\<close>

definition digits_value :: "string \<Rightarrow> nat" where
  "digits_value ds = foldl (\<lambda>acc d. 10 * acc + (of_char d - 48)) 0 ds"

section \<open>Well-formed UTF-8 (\<open>utf8.ValidString\<close>)\<close>

text \<open>
  The tables of the \<open>utf8\<close> package: the lead byte fixes the length of the encoding
  (\<open>C2\<close> to \<open>DF\<close> two bytes, \<open>E0\<close> to \<open>EF\<close> three, \<open>F0\<close> to \<open>F4\<close> four; any other
  byte from \<open>80\<close> on is no lead byte) and the range of the second byte (\<open>A0\<close> to
  \<open>BF\<close> after \<open>E0\<close>, \<open>80\<close> to \<open>9F\<close> after \<open>ED\<close>, \<open>90\<close> to \<open>BF\<close> after \<open>F0\<close>,
  \<open>80\<close> to \<open>8F\<close> after \<open>F4\<close>, and \<open>80\<close> to \<open>BF\<close> otherwise); the third and fourth
  bytes lie between \<open>80\<close> and \<open>BF\<close>.
\<close>

definition locb :: nat where
  "locb = 128"

definition hicb :: nat where
  "hicb = 191"

definition first_size :: "nat \<Rightarrow> nat" where
  "first_size b =
     (if 194 \<le> b \<and> b \<le> 223 then 2
      else if 224 \<le> b \<and> b \<le> 239 then 3
      else if 240 \<le> b \<and> b \<le> 244 then 4
      else 0)"

definition accept_lo :: "nat \<Rightarrow> nat" where
  "accept_lo b = (if b = 224 then 160 else if b = 240 then 144 else locb)"

definition accept_hi :: "nat \<Rightarrow> nat" where
  "accept_hi b = (if b = 237 then 159 else if b = 244 then 143 else hicb)"

text \<open>
  The number of bytes of the well-formed encoding at the head of a string, and 0 when
  the string is empty or does not start with one.
\<close>

definition rune_size :: "string \<Rightarrow> nat" where
  "rune_size s =
     (case s of
        [] \<Rightarrow> 0
      | c # cs \<Rightarrow>
          (let si = (of_char c :: nat) in
           if si < 128 then 1
           else
             (let size = first_size si in
              if size = 0 \<or> length s < size then 0
              else if of_char (cs ! 0) < accept_lo si \<or> accept_hi si < (of_char (cs ! 0) :: nat)
                then 0
              else if size = 2 then 2
              else if of_char (cs ! 1) < locb \<or> hicb < (of_char (cs ! 1) :: nat) then 0
              else if size = 3 then 3
              else if of_char (cs ! 2) < locb \<or> hicb < (of_char (cs ! 2) :: nat) then 0
              else 4)))"

fun utf8_ValidString :: "string \<Rightarrow> bool" where
  "utf8_ValidString [] = True"
| "utf8_ValidString (c # cs) =
     (let size = rune_size (c # cs)
      in if size = 0 then False else utf8_ValidString (drop (size - 1) cs))"

text \<open>
  A string read by the JSON decoder: every byte that does not start a well-formed
  encoding is replaced by the encoding of U+FFFD, so that a decoded string is always
  well-formed UTF-8.
\<close>

fun json_string :: "string \<Rightarrow> string" where
  "json_string [] = []"
| "json_string (c # cs) =
     (let size = rune_size (c # cs)
      in if size = 0 then [CHR 0xEF, CHR 0xBF, CHR 0xBD] @ json_string cs
         else take size (c # cs) @ json_string (drop (size - 1) cs))"

section \<open>Metric descriptors and samples (the parts of the metrics library in use)\<close>

text \<open>
  \<open>prometheus.NewDesc\<close> stores the series name, the help text, the names of the variable
  labels and the constant labels; \<open>nil\<close> is the empty list. \<open>NewConstMetric\<close> fails when
  the number of label values differs from the number of variable labels of the
  descriptor, and when a label value is not well-formed UTF-8; \<open>MustNewConstMetric\<close>
  panics on either failure. An error is represented by a short message, not by the
  library's full text.
\<close>

record Desc =
  fqName :: string
  "help" :: string
  variableLabels :: "string list"
  constLabels :: "(string \<times> string) list"

definition NewDesc :: "string \<Rightarrow> string \<Rightarrow> string list \<Rightarrow> (string \<times> string) list \<Rightarrow> Desc" where
  "NewDesc name hlp labels consts =
     \<lparr>fqName = name, help = hlp, variableLabels = labels, constLabels = consts\<rparr>"

datatype ValueType = CounterValue | GaugeValue | UntypedValue

record Metric =
  desc :: Desc
  valType :: ValueType
  val :: real
  labelValues :: "string list"

definition NewConstMetric :: "Desc \<Rightarrow> ValueType \<Rightarrow> real \<Rightarrow> string list \<Rightarrow> error + Metric" where
  "NewConstMetric d vt v lvs =
     (if length lvs \<noteq> length (variableLabels d) then Inl ''inconsistent label cardinality''
      else if \<not> list_all utf8_ValidString lvs then Inl ''label value is not valid UTF-8''
      else Inr \<lparr>desc = d, valType = vt, val = v, labelValues = lvs\<rparr>)"

text \<open>The labels of a sample: each variable label of the descriptor with its value.\<close>

definition labelPairs :: "Metric \<Rightarrow> (string \<times> string) list" where
  "labelPairs m = zip (variableLabels (desc m)) (labelValues m)"

section \<open>\<open>ProcessCollector\<close> (main.go, lines 48 to 99)\<close>

definition time_Second :: int where
  "time_Second = 1000000000"

record Client =
  Transport :: basicAuthTransport
  Timeout :: int

record ProcessCollector =
  adminURL :: string
  username :: string
  password :: string
  serverName :: string
  client :: Client
  adminUpDesc :: Desc
  serverStatusDesc :: Desc
  processArgDesc :: Desc

definition NewProcessCollector :: "string \<Rightarrow> string \<Rightarrow> string \<Rightarrow> string \<Rightarrow> ProcessCollector" where
  "NewProcessCollector adminURL' username' password' serverName' =
     (let client' = \<lparr>Transport = \<lparr>basicAuthTransport.username = username',
                                   basicAuthTransport.password = password'\<rparr>,
                     Timeout = 10 * time_Second\<rparr>
      in \<lparr>adminURL = adminURL',
          ProcessCollector.username = username',
          ProcessCollector.password = password',
          serverName = serverName',
          client = client',
          adminUpDesc = NewDesc ''weblogic_admin_server_up''
            ''Whether the WebLogic admin server is up (1 = up, 0 = down)'' [] [],
          serverStatusDesc = NewDesc ''weblogic_server_up''
            ''Whether the specified WebLogic server is up (1 = RUNNING, 0 = otherwise)''
            [''server_name''] [],
          processArgDesc = NewDesc ''process_arg''
            ''Command-line arguments of the WebLogic process''
            [''server_name'', ''pid'', ''index'', ''value''] []\<rparr>)"

definition Describe :: "ProcessCollector \<Rightarrow> Desc list" where
  "Describe c = [adminUpDesc c, serverStatusDesc c, processArgDesc c]"

section \<open>The environment of one scrape\<close>

text \<open>
  What the program reads from outside during one call of \<open>Collect\<close>.
  \<^item> \<open>DefaultTransport\<close> is \<open>http.DefaultTransport.RoundTrip\<close>.
  \<^item> \<open>http_Get\<close> is the library's \<open>Client.Get\<close>, given the timeout of the client and
    the \<open>RoundTrip\<close> of its transport: it may fail before it sends anything (a URL it
    cannot parse), it may send several requests (redirects), and whatever it sends
    goes through that \<open>RoundTrip\<close>.
  \<^item> \<open>json_decoder\<close> is what the JSON decoder reads from a response body, before the
    strings are made well-formed UTF-8; \<open>Inl\<close> when decoding fails.
  \<^item> \<open>Processes\<close> is the process table of \<open>process.Processes\<close>, each process with its
    id (an \<open>int32\<close>) and the outcome of \<open>CmdlineSlice\<close>.
\<close>

record Process =
  Pid :: "32 word"
  CmdlineSlice :: "error + string list"

record Env =
  DefaultTransport :: "Request \<Rightarrow> error + Response"
  http_Get :: "int \<Rightarrow> (Request \<Rightarrow> Request \<times> (error + Response)) \<Rightarrow> string \<Rightarrow> error + Response"
  json_decoder :: "string \<Rightarrow> error + ServerRuntimesResponse"
  Processes :: "error + Process list"

text \<open>\<open>c.client.Get(url)\<close>\<close>

definition Client_Get :: "Env \<Rightarrow> Client \<Rightarrow> string \<Rightarrow> error + Response" where
  "Client_Get env cl url =
     http_Get env (Timeout cl) (RoundTrip (Transport cl) (DefaultTransport env)) url"

text \<open>\<open>json.NewDecoder(resp.Body).Decode(&runtimes)\<close>\<close>

definition json_Decode :: "Env \<Rightarrow> string \<Rightarrow> error + ServerRuntimesResponse" where
  "json_Decode env body =
     (case json_decoder env body of
        Inl err \<Rightarrow> Inl err
      | Inr r \<Rightarrow>
          Inr \<lparr>ServerRuntimesResponse.Body =
                 \<lparr>Items = map (\<lambda>sv. \<lparr>Name = json_string (Name sv), State = json_string (State sv)\<rparr>)
                              (Items (ServerRuntimesResponse.Body r))\<rparr>\<rparr>)"

section \<open>\<open>Collect\<close> (main.go, lines 101 to 175)\<close>

text \<open>
  The effects of a scrape are the samples sent on the channel, in order, and the lines
  handed to the logger. A piece of the function either runs to its end or panics; after
  a panic nothing more is sent, and what was sent before stays sent.
\<close>

record Scrape =
  ch :: "Metric list"
  logs :: "string list"

datatype control = Normal | Panic error

definition log_Printf :: "string \<Rightarrow> Scrape \<Rightarrow> Scrape" where
  "log_Printf msg s = s\<lparr>logs := logs s @ [msg]\<rparr>"

text \<open>\<open>ch <- prometheus.MustNewConstMetric(d, vt, v, lvs...)\<close>\<close>

definition send_MustNewConstMetric ::
  "Desc \<Rightarrow> ValueType \<Rightarrow> real \<Rightarrow> string list \<Rightarrow> Scrape \<Rightarrow> control \<times> Scrape" where
  "send_MustNewConstMetric d vt v lvs s =
     (case NewConstMetric d vt v lvs of
        Inl err \<Rightarrow> (Panic err, s)
      | Inr m \<Rightarrow> (Normal, s\<lparr>ch := ch s @ [m]\<rparr>))"

primrec slices_Contains :: "'a list \<Rightarrow> 'a \<Rightarrow> bool" where
  "slices_Contains [] v = False"
| "slices_Contains (x # xs) v = (if x = v then True else slices_Contains xs v)"

text \<open>
  The loop over \<open>runtimes.Body.Items\<close> (lines 129 to 145): it yields \<open>serverFound\<close> and
  leaves the loop at the first entry with the configured name.
\<close>

fun range_Items ::
  "ProcessCollector \<Rightarrow> ServerRuntime list \<Rightarrow> Scrape \<Rightarrow> control \<times> bool \<times> Scrape" where
  "range_Items c [] s = (Normal, False, s)"
| "range_Items c (server # rest) s =
     (if Name server = serverName c then
        (let value = (if State server = ''RUNNING'' then 1 else 0);
             (r, s') = send_MustNewConstMetric (serverStatusDesc c) GaugeValue value
                         [Name server] s
         in (r, True, s'))
      else range_Items c rest s)"

text \<open>The inner loop over \<open>cmdline\<close> (lines 165 to 172), from index \<open>i\<close> on.\<close>

fun range_cmdline ::
  "ProcessCollector \<Rightarrow> string \<Rightarrow> nat \<Rightarrow> string list \<Rightarrow> Scrape \<Rightarrow> control \<times> Scrape" where
  "range_cmdline c pid i [] s = (Normal, s)"
| "range_cmdline c pid i (arg # args) s =
     (case send_MustNewConstMetric (processArgDesc c) GaugeValue 1
             [serverName c, pid, Sprintf_d (int i), arg] s of
        (Panic e, s') \<Rightarrow> (Panic e, s')
      | (Normal, s') \<Rightarrow> range_cmdline c pid (Suc i) args s')"

text \<open>The body of the loop over the processes (lines 159 to 173), for one process.\<close>

definition inspect_process :: "ProcessCollector \<Rightarrow> Process \<Rightarrow> Scrape \<Rightarrow> control \<times> Scrape" where
  "inspect_process c p s =
     (case CmdlineSlice p of
        Inl err \<Rightarrow> (Normal, s)
      | Inr cmdline \<Rightarrow>
          if slices_Contains cmdline (''-Dweblogic.Name='' @ serverName c) then
            (let pid = Sprintf_d (sint (Pid p)) in range_cmdline c pid 0 cmdline s)
          else (Normal, s))"

fun range_processes :: "ProcessCollector \<Rightarrow> Process list \<Rightarrow> Scrape \<Rightarrow> control \<times> Scrape" where
  "range_processes c [] s = (Normal, s)"
| "range_processes c (p # ps) s =
     (case inspect_process c p s of
        (Panic e, s') \<Rightarrow> (Panic e, s')
      | (Normal, s') \<Rightarrow> range_processes c ps s')"

definition Collect :: "ProcessCollector \<Rightarrow> Env \<Rightarrow> control \<times> Scrape" where
  "Collect c env =
     (let s0 = \<lparr>ch = [], logs = []\<rparr> in
      case Client_Get env (client c)
             (adminURL c @ ''/management/weblogic/latest/domainRuntime/serverRuntimes'') of
        Inl err \<Rightarrow>
          send_MustNewConstMetric (adminUpDesc c) GaugeValue 0 []
            (log_Printf (''Failed to connect to admin server: '' @ err) s0)
      | Inr resp \<Rightarrow>
          (if StatusCode resp \<noteq> http_StatusOK then
             send_MustNewConstMetric (adminUpDesc c) GaugeValue 0 []
               (log_Printf (''Admin server returned status: '' @ Status resp) s0)
           else
             (case send_MustNewConstMetric (adminUpDesc c) GaugeValue 1 [] s0 of
                (Panic e, s1) \<Rightarrow> (Panic e, s1)
              | (Normal, s1) \<Rightarrow>
                  (case json_Decode env (Response.Body resp) of
                     Inl err \<Rightarrow> (Normal, log_Printf (''Failed to parse server runtimes: '' @ err) s1)
                   | Inr runtimes \<Rightarrow>
                       (case range_Items c (Items (ServerRuntimesResponse.Body runtimes)) s1 of
                          (Panic e, serverFound, s2) \<Rightarrow> (Panic e, s2)
                        | (Normal, serverFound, s2) \<Rightarrow>
                            (let s3 = (if \<not> serverFound then
                                         log_Printf
                                           (''Server '' @ serverName c @ '' not found in domain'') s2
                                       else s2) in
                             (case Processes env of
                                Inl err \<Rightarrow>
                                  (Normal, log_Printf (''Failed to retrieve processes: '' @ err) s3)
                              | Inr processes \<Rightarrow> range_processes c processes s3)))))))"

text \<open>The samples one scrape sends.\<close>

definition samples :: "ProcessCollector \<Rightarrow> Env \<Rightarrow> Metric list" where
  "samples c env = ch (snd (Collect c env))"

text \<open>The samples the body of the process loop sends for one process.\<close>

definition process_samples :: "ProcessCollector \<Rightarrow> Process \<Rightarrow> Metric list" where
  "process_samples c p = ch (snd (inspect_process c p \<lparr>ch = [], logs = []\<rparr>))"

section \<open>Example inputs\<close>

text \<open>A transport, or a decoder, that gives the same answer to every input.\<close>

definition answering :: "'b \<Rightarrow> 'a \<Rightarrow> 'b" where
  "answering r x = r"

text \<open>A \<open>Get\<close> that sends one request for the URL and returns the answer.\<close>

definition get_once ::
  "int \<Rightarrow> (Request \<Rightarrow> Request \<times> (error + Response)) \<Rightarrow> string \<Rightarrow> error + Response" where
  "get_once timeout rt url = snd (rt \<lparr>Method = ''GET'', URL = url, Header = Map.empty\<rparr>)"

definition collector0 :: ProcessCollector where
  "collector0 =
     NewProcessCollector ''http://localhost:7001'' ''weblogic'' ''welcome1'' ''AdminServer''"

definition response_ok :: Response where
  "response_ok = \<lparr>StatusCode = 200, Status = ''200 OK'', Body = ''{...}''\<rparr>"

text \<open>An unreadable process, and the server process with three arguments.\<close>

definition processes0 :: "Process list" where
  "processes0 =
     [\<lparr>Pid = 1, CmdlineSlice = Inl ''permission denied''\<rparr>,
      \<lparr>Pid = 4242,
       CmdlineSlice = Inr [''java'', ''-Dweblogic.Name=AdminServer'', ''weblogic.Server'']\<rparr>]"

text \<open>The admin server refuses the connection.\<close>

definition env_refused :: Env where
  "env_refused =
     \<lparr>DefaultTransport = answering (Inl ''connection refused''),
      http_Get = get_once,
      json_decoder = answering (Inl ''unexpected end of JSON input''),
      Processes = Inr processes0\<rparr>"

text \<open>The admin server answers 200 with a body that is not JSON.\<close>

definition env_not_json :: Env where
  "env_not_json =
     \<lparr>DefaultTransport = answering (Inr response_ok),
      http_Get = get_once,
      json_decoder = answering (Inl ''invalid character''),
      Processes = Inr processes0\<rparr>"

text \<open>The admin server answers 200 and the body decodes to the given items.\<close>

definition env_decoded :: "ServerRuntime list \<Rightarrow> error + Process list \<Rightarrow> Env" where
  "env_decoded items procs =
     \<lparr>DefaultTransport = answering (Inr response_ok),
      http_Get = get_once,
      json_decoder = answering (Inr \<lparr>ServerRuntimesResponse.Body = \<lparr>Items = items\<rparr>\<rparr>),
      Processes = procs\<rparr>"

text \<open>A server process one of whose arguments is not well-formed UTF-8.\<close>

definition process_latin1 :: Process where
  "process_latin1 =
     \<lparr>Pid = 4242,
      CmdlineSlice = Inr [''java'', ''-Dweblogic.Name=AdminServer'', [CHR 0xFF, CHR 0xFE],
                          ''weblogic.Server'']\<rparr>"

section \<open>Properties\<close>

subsection \<open>Base64\<close>

lemma EncodeToString_rfc4648:
  "StdEncoding_EncodeToString '''' = ''''"
  "StdEncoding_EncodeToString ''f'' = ''Zg==''"
  "StdEncoding_EncodeToString ''fo'' = ''Zm8=''"
  "StdEncoding_EncodeToString ''foo'' = ''Zm9v''"
  "StdEncoding_EncodeToString ''foob'' = ''Zm9vYg==''"
  "StdEncoding_EncodeToString ''fooba'' = ''Zm9vYmE=''"
  "StdEncoding_EncodeToString ''foobar'' = ''Zm9vYmFy''"
  by (simp_all add: encode6_def encodeStd_def StdPadding_def)

lemma encodeStd_facts:
  "length encodeStd = 64" "distinct encodeStd" "StdPadding \<notin> set encodeStd"
  by (simp_all add: encodeStd_def StdPadding_def)

lemma index_of_nth: "distinct xs \<Longrightarrow> i < length xs \<Longrightarrow> index_of xs (xs ! i) = i"
proof (induction xs arbitrary: i)
  case Nil
  then show ?case by simp
next
  case (Cons x xs)
  then show ?case
    by (cases i) auto
qed

lemma encode6_in: "encode6 v \<in> set encodeStd"
  by (simp add: encode6_def encodeStd_facts(1))

lemma encode6_not_padding: "encode6 v \<noteq> StdPadding"
  using encode6_in [of v] encodeStd_facts(3) by metis

lemma decode6_encode6: "decode6 (encode6 v) = Some (v mod 64)"
  using index_of_nth [OF encodeStd_facts(2), of "v mod 64"] encode6_in [of v]
  by (simp add: decode6_def encode6_def encodeStd_facts(1))

lemma split64:
  fixes v :: nat
  assumes "v < 16777216"
  shows "v div 262144 * 262144 + (v div 4096) mod 64 * 4096
                 + (v div 64) mod 64 * 64 + v mod 64 = v"
    and "v div 262144 < 64"
proof -
  define q1 where "q1 = v div 64"
  define q2 where "q2 = q1 div 64"
  define q3 where "q3 = q2 div 64"
  have d2: "v div 4096 = q2" unfolding q2_def q1_def by (simp add: div_mult2_eq [symmetric])
  have d3: "v div 262144 = q3" unfolding q3_def q2_def q1_def by (simp add: div_mult2_eq [symmetric])
  show "v div 262144 < 64" using assms by simp
  have e1: "v = q1 * 64 + v mod 64" unfolding q1_def by simp
  have e2: "q1 = q2 * 64 + q1 mod 64" unfolding q2_def by simp
  have e3: "q2 = q3 * 64 + q2 mod 64" unfolding q3_def by simp
  have "q3 * 262144 + q2 mod 64 * 4096 + q1 mod 64 * 64 + v mod 64 = v"
    using e1 e2 e3 by linarith
  then show "v div 262144 * 262144 + (v div 4096) mod 64 * 4096
                 + (v div 64) mod 64 * 64 + v mod 64 = v"
    unfolding d2 d3 q1_def [symmetric] .
qed

lemma div_mod_base:
  fixes m c n :: nat
  assumes "c < n"
  shows "(m * n + c) div n = m" and "(m * n + c) mod n = c"
  using assms by simp_all

lemma bytes3:
  fixes a b c :: nat
  assumes "b < 256" "c < 256"
  defines "v \<equiv> a * 65536 + b * 256 + c"
  shows "v div 65536 = a" and "v div 256 mod 256 = b" and "v mod 256 = c"
proof -
  have v: "v = (a * 256 + b) * 256 + c" unfolding v_def by simp
  show "v mod 256 = c"
    by (subst v) (rule div_mod_base(2) [OF assms(2)])
  have d: "v div 256 = a * 256 + b"
    by (subst v) (rule div_mod_base(1) [OF assms(2)])
  show "v div 256 mod 256 = b"
    by (subst d) (rule div_mod_base(2) [OF assms(1)])
  have "v div 65536 = v div 256 div 256" by (simp add: div_mult2_eq [symmetric])
  also have "\<dots> = a"
    by (subst d) (rule div_mod_base(1) [OF assms(1)])
  finally show "v div 65536 = a" .
qed

lemma decode_group:
  fixes v :: nat
  assumes "v < 16777216"
  shows "decode6 (encode6 (v div 262144)) = Some (v div 262144)"
    and "decode6 (encode6 (v div 4096)) = Some (v div 4096 mod 64)"
    and "decode6 (encode6 (v div 64)) = Some (v div 64 mod 64)"
    and "decode6 (encode6 v) = Some (v mod 64)"
  using split64(2) [OF assms] by (simp_all add: decode6_encode6)

lemma rfc4648_roundtrip: "rfc4648_decode (StdEncoding_EncodeToString s) = Some s"
proof (induction s rule: StdEncoding_EncodeToString.induct)
  case 1
  then show ?case by simp
next
  case (2 a)
  define v :: nat where "v = of_char a * 65536 + 0 * 256 + 0"
  have lt: "v < 16777216" unfolding v_def using nat_of_char_less_256 [of a] by simp
  have enc: "StdEncoding_EncodeToString [a] =
      [encode6 (v div 262144), encode6 (v div 4096), StdPadding, StdPadding]"
    by (simp add: v_def Let_def)
  have z: "v div 64 mod 64 = 0" "v mod 64 = 0" unfolding v_def by simp_all
  have sum: "v div 262144 * 262144 + v div 4096 mod 64 * 4096 = v"
    using split64(1) [OF lt] z by simp
  have byte: "char_of (v div 65536) = a"
    using bytes3(1) [of 0 0 "of_char a"] unfolding v_def by simp
  show ?case
    unfolding enc by (simp add: decode_group [OF lt] sum byte)
next
  case (3 a b)
  define v :: nat where "v = of_char a * 65536 + of_char b * 256 + 0"
  have lt: "v < 16777216" unfolding v_def
    using nat_of_char_less_256 [of a] nat_of_char_less_256 [of b] by linarith
  have enc: "StdEncoding_EncodeToString [a, b] =
      [encode6 (v div 262144), encode6 (v div 4096), encode6 (v div 64), StdPadding]"
    by (simp add: v_def Let_def)
  have z: "v mod 64 = 0" unfolding v_def by simp
  have sum: "v div 262144 * 262144 + v div 4096 mod 64 * 4096 + v div 64 mod 64 * 64 = v"
    using split64(1) [OF lt] z by simp
  have bs: "v div 65536 = of_char a" "v div 256 mod 256 = of_char b"
    using bytes3(1,2) [of "of_char b" 0 "of_char a"] unfolding v_def by simp_all
  have "char_of (v div 256) = char_of (v div 256 mod 256)" by simp
  then have byte: "char_of (v div 65536) = a" "char_of (v div 256) = b"
    unfolding bs by simp_all
  show ?case
    unfolding enc by (simp add: decode_group [OF lt] encode6_not_padding sum byte)
next
  case (4 a b c src)
  define v :: nat where "v = of_char a * 65536 + of_char b * 256 + of_char c"
  have lt: "v < 16777216" unfolding v_def
    using nat_of_char_less_256 [of a] nat_of_char_less_256 [of b] nat_of_char_less_256 [of c]
    by linarith
  have enc: "StdEncoding_EncodeToString (a # b # c # src) =
      encode6 (v div 262144) # encode6 (v div 4096) # encode6 (v div 64) # encode6 v #
      StdEncoding_EncodeToString src"
    by (simp add: v_def Let_def)
  have sum: "v div 262144 * 262144 + v div 4096 mod 64 * 4096 + v div 64 mod 64 * 64
          + v mod 64 = v"
    using split64(1) [OF lt] .
  have bs: "v div 65536 = of_char a" "v div 256 mod 256 = of_char b" "v mod 256 = of_char c"
    using bytes3 [of "of_char b" "of_char c" "of_char a"] unfolding v_def by simp_all
  have "char_of (v div 256) = char_of (v div 256 mod 256)" "char_of v = char_of (v mod 256)"
    by simp_all
  then have byte: "char_of (v div 65536) = a" "char_of (v div 256) = b" "char_of v = c"
    unfolding bs by simp_all
  show ?case
    unfolding enc using "4.IH"
    by (simp add: decode_group [OF lt] encode6_not_padding sum byte)
qed

lemma length_EncodeToString:
  "length (StdEncoding_EncodeToString s) = 4 * ((length s + 2) div 3)"
proof (induction s rule: StdEncoding_EncodeToString.induct)
  case (4 a b c src)
  have "(length (a # b # c # src) + 2) div 3 = (length src + 2) div 3 + 1" by simp
  with 4 show ?case by (simp add: Let_def)
qed (simp_all add: Let_def)

lemma set_EncodeToString:
  "set (StdEncoding_EncodeToString s) \<subseteq> set encodeStd \<union> {StdPadding}"
  by (induction s rule: StdEncoding_EncodeToString.induct) (simp_all add: Let_def encode6_in)

subsection \<open>Decimal rendering\<close>

lemma of_char_digit_char: "d < 10 \<Longrightarrow> of_char (digit_char d) = 48 + d"
proof -
  assume "d < 10"
  then have "d \<in> {0, 1, 2, 3, 4, 5, 6, 7, 8, 9}" by auto
  then show ?thesis
    by (auto simp add: digit_char_def ldigits_def)
qed

lemma digits_value_snoc: "digits_value (ds @ [d]) = 10 * digits_value ds + (of_char d - 48)"
  by (simp add: digits_value_def)

lemma digits_value_nat_decimal: "digits_value (nat_decimal n) = n"
proof (induction n rule: nat_decimal.induct)
  case (1 n)
  show ?case
  proof (cases "n < 10")
    case True
    then show ?thesis
      by (simp add: nat_decimal.simps [of n] digits_value_def of_char_digit_char)
  next
    case False
    with "1" show ?thesis
      by (simp add: nat_decimal.simps [of n] digits_value_snoc of_char_digit_char)
  qed
qed

lemma digits_value_Sprintf_d: "digits_value (Sprintf_d (int i)) = i"
  by (simp add: Sprintf_d_def digits_value_nat_decimal)

lemma Sprintf_d_index_inj: "Sprintf_d (int i) = Sprintf_d (int j) \<Longrightarrow> i = j"
  by (metis digits_value_Sprintf_d)

subsection \<open>UTF-8\<close>

lemma rune_size_ascii: "(of_char c :: nat) < 128 \<Longrightarrow> rune_size (c # cs) = 1"
  by (simp add: rune_size_def)



lemma json_string_ascii: "\<forall>c \<in> set s. (of_char c :: nat) < 128 \<Longrightarrow> json_string s = s"
  by (induction s) (simp_all add: rune_size_ascii)

lemma first_size_cases: "first_size b = 0 \<or> first_size b = 2 \<or> first_size b = 3 \<or> first_size b = 4"
  by (simp add: first_size_def)

lemma rune_size_le: "rune_size s \<le> length s"
proof (cases s)
  case Nil
  then show ?thesis by (simp add: rune_size_def)
next
  case (Cons c cs)
  show ?thesis
    using first_size_cases [of "of_char c"] unfolding Cons
    by (auto simp add: rune_size_def Let_def Suc_le_eq)
qed

lemma rune_size_take:
  assumes "rune_size s = k" and "0 < k"
  shows "rune_size (take k s @ r) = k"
proof (cases s)
  case Nil
  with assms show ?thesis by (simp add: rune_size_def)
next
  case (Cons c cs)
  have len: "k \<le> length s" using rune_size_le [of s] assms(1) by simp
  have nth: "\<And>j. Suc j < k \<Longrightarrow> (take (k - 1) cs @ r) ! j = cs ! j"
    using len Cons by (auto simp add: nth_append)
  have tk: "take k s @ r = c # (take (k - 1) cs @ r)"
    using assms(2) Cons by (cases k) simp_all
  have lk: "length (c # (take (k - 1) cs @ r)) \<ge> k"
    using len Cons assms(2) by simp
  show ?thesis
    using assms lk nth [of 0] nth [of 1] nth [of 2] first_size_cases [of "of_char c"]
    unfolding tk Cons
    by (auto simp add: rune_size_def Let_def split: if_splits)
qed

lemma ValidString_rune_append:
  assumes "rune_size s = k" and "0 < k" and "utf8_ValidString r"
  shows "utf8_ValidString (take k s @ r)"
proof -
  obtain c cs where s: "s = c # cs"
    using assms(1,2) by (cases s) (simp_all add: rune_size_def)
  have len: "k \<le> length s" using rune_size_le [of s] assms(1) by simp
  have tk: "take k s @ r = c # (take (k - 1) cs @ r)"
    using assms(2) s by (cases k) simp_all
  have rs: "rune_size (c # (take (k - 1) cs @ r)) = k"
    using rune_size_take [OF assms(1,2), of r] unfolding tk .
  have "drop (k - 1) (take (k - 1) cs @ r) = r"
    using len s by simp
  then show ?thesis
    unfolding tk using rs assms(2,3) by simp
qed

lemma ValidString_replacement:
  "utf8_ValidString r \<Longrightarrow> utf8_ValidString ([CHR 0xEF, CHR 0xBF, CHR 0xBD] @ r)"
  by (simp add: rune_size_def first_size_def accept_lo_def accept_hi_def locb_def hicb_def)

lemma ValidString_json_string: "utf8_ValidString (json_string s)"
proof (induction s rule: json_string.induct)
  case 1
  then show ?case by simp
next
  case (2 c cs)
  show ?case
  proof (cases "rune_size (c # cs) = 0")
    case True
    with "2.IH"(1) show ?thesis
      using ValidString_replacement [of "json_string cs"] by simp
  next
    case False
    with "2.IH"(2) [OF refl False]
    show ?thesis
      using ValidString_rune_append [of "c # cs" "rune_size (c # cs)"
          "json_string (drop (rune_size (c # cs) - 1) cs)"]
      by (simp add: Let_def)
  qed
qed




lemma not_ValidString_FF_FE: "\<not> utf8_ValidString [CHR 0xFF, CHR 0xFE]"
  by (simp add: rune_size_def first_size_def)

lemma ValidString_examples: "utf8_ValidString ''caf'' \<and> utf8_ValidString [CHR 0xC3, CHR 0xA9] \<and> \<not> utf8_ValidString [CHR 0xC0, CHR 0x80]
   \<and> \<not> utf8_ValidString [CHR 0xED, CHR 0xA0, CHR 0x80] \<and> utf8_ValidString [CHR 0xF0, CHR 0x9F, CHR 0x98, CHR 0x80]
   \<and> \<not> utf8_ValidString [CHR 0xE2, CHR 0x82]"
  by (simp add: rune_size_def first_size_def accept_lo_def accept_hi_def locb_def hicb_def)

subsection \<open>The loops of \<open>Collect\<close>\<close>


lemma NewProcessCollector_fields:
  "adminURL (NewProcessCollector a u pw n) = a"
  "serverName (NewProcessCollector a u pw n) = n"
  "client (NewProcessCollector a u pw n) =
     \<lparr>Transport = \<lparr>basicAuthTransport.username = u, basicAuthTransport.password = pw\<rparr>,
      Timeout = 10000000000\<rparr>"
  "adminUpDesc (NewProcessCollector a u pw n) =
     \<lparr>fqName = ''weblogic_admin_server_up'',
      help = ''Whether the WebLogic admin server is up (1 = up, 0 = down)'',
      variableLabels = [], constLabels = []\<rparr>"
  "serverStatusDesc (NewProcessCollector a u pw n) =
     \<lparr>fqName = ''weblogic_server_up'',
      help = ''Whether the specified WebLogic server is up (1 = RUNNING, 0 = otherwise)'',
      variableLabels = [''server_name''], constLabels = []\<rparr>"
  "processArgDesc (NewProcessCollector a u pw n) =
     \<lparr>fqName = ''process_arg'',
      help = ''Command-line arguments of the WebLogic process'',
      variableLabels = [''server_name'', ''pid'', ''index'', ''value''], constLabels = []\<rparr>"
  by (simp_all add: NewProcessCollector_def NewDesc_def time_Second_def Let_def)

lemma send_ok:
  "length lvs = length (variableLabels d) \<Longrightarrow> list_all utf8_ValidString lvs \<Longrightarrow>
   send_MustNewConstMetric d vt v lvs s =
     (Normal, s\<lparr>ch := ch s @ [\<lparr>desc = d, valType = vt, val = v, labelValues = lvs\<rparr>]\<rparr>)"
  by (simp add: send_MustNewConstMetric_def NewConstMetric_def)

lemma send_invalid:
  "length lvs = length (variableLabels d) \<Longrightarrow> \<not> list_all utf8_ValidString lvs \<Longrightarrow>
   send_MustNewConstMetric d vt v lvs s = (Panic ''label value is not valid UTF-8'', s)"
  by (simp add: send_MustNewConstMetric_def NewConstMetric_def)

text \<open>
  Each piece of the process loop ends the same way from every state and appends the same
  samples, all of them \<open>process_arg\<close> samples with as many values as labels.
\<close>

lemma send_uniform:
  "\<exists>r new. (\<forall>s. send_MustNewConstMetric d vt v lvs s = (r, s\<lparr>ch := ch s @ new\<rparr>))
     \<and> (\<forall>m \<in> set new. desc m = d \<and> length (labelValues m) = length (variableLabels d))"
proof (cases "NewConstMetric d vt v lvs")
  case (Inl err)
  then show ?thesis
    by (intro exI [of _ "Panic err"] exI [of _ "[]"]) (simp add: send_MustNewConstMetric_def)
next
  case (Inr m)
  moreover have "desc m = d \<and> length (labelValues m) = length (variableLabels d)"
    using Inr by (auto simp add: NewConstMetric_def split: if_splits)
  ultimately show ?thesis
    by (intro exI [of _ Normal] exI [of _ "[m]"]) (simp add: send_MustNewConstMetric_def)
qed

lemma range_cmdline_uniform:
  "\<exists>r new. (\<forall>s. range_cmdline c pid i args s = (r, s\<lparr>ch := ch s @ new\<rparr>))
     \<and> (\<forall>m \<in> set new. desc m = processArgDesc c
            \<and> length (labelValues m) = length (variableLabels (processArgDesc c)))"
proof (induction args arbitrary: i)
  case Nil
  show ?case
    by (intro exI [of _ Normal] exI [of _ "[]"]) simp
next
  case (Cons arg args)
  obtain r1 new1 where
    s1: "\<And>s. send_MustNewConstMetric (processArgDesc c) GaugeValue 1
               [serverName c, pid, Sprintf_d (int i), arg] s = (r1, s\<lparr>ch := ch s @ new1\<rparr>)"
    and d1: "\<forall>m \<in> set new1. desc m = processArgDesc c
            \<and> length (labelValues m) = length (variableLabels (processArgDesc c))"
    using send_uniform [of "processArgDesc c" GaugeValue 1 "[serverName c, pid, Sprintf_d (int i), arg]"]
    by blast
  obtain r2 new2 where
    s2: "\<And>s. range_cmdline c pid (Suc i) args s = (r2, s\<lparr>ch := ch s @ new2\<rparr>)"
    and d2: "\<forall>m \<in> set new2. desc m = processArgDesc c
            \<and> length (labelValues m) = length (variableLabels (processArgDesc c))"
    using Cons.IH [of "Suc i"] by blast
  show ?case
  proof (cases r1)
    case Normal
    then have "\<forall>s. range_cmdline c pid i (arg # args) s = (r2, s\<lparr>ch := ch s @ (new1 @ new2)\<rparr>)"
      by (simp add: s1 s2)
    moreover have "\<forall>m \<in> set (new1 @ new2). desc m = processArgDesc c
            \<and> length (labelValues m) = length (variableLabels (processArgDesc c))"
      using d1 d2 by (simp add: ball_Un)
    ultimately show ?thesis
      by (intro exI [of _ r2] exI [of _ "new1 @ new2"] conjI)
  next
    case (Panic e)
    then have "\<forall>s. range_cmdline c pid i (arg # args) s = (Panic e, s\<lparr>ch := ch s @ new1\<rparr>)"
      by (simp add: s1)
    with d1 show ?thesis
      by (intro exI [of _ "Panic e"] exI [of _ new1] conjI)
  qed
qed

lemma inspect_process_uniform:
  "\<exists>r new. (\<forall>s. inspect_process c p s = (r, s\<lparr>ch := ch s @ new\<rparr>))
     \<and> (\<forall>m \<in> set new. desc m = processArgDesc c
            \<and> length (labelValues m) = length (variableLabels (processArgDesc c)))"
proof (cases "\<exists>cmdline. CmdlineSlice p = Inr cmdline
                \<and> slices_Contains cmdline (''-Dweblogic.Name='' @ serverName c)")
  case True
  then obtain cmdline where "CmdlineSlice p = Inr cmdline"
    "slices_Contains cmdline (''-Dweblogic.Name='' @ serverName c)" by blast
  then have "\<forall>s. inspect_process c p s = range_cmdline c (Sprintf_d (sint (Pid p))) 0 cmdline s"
    by (simp add: inspect_process_def)
  then show ?thesis
    using range_cmdline_uniform [of c "Sprintf_d (sint (Pid p))" 0 cmdline] by simp
next
  case False
  then have "\<forall>s. inspect_process c p s = (Normal, s\<lparr>ch := ch s @ []\<rparr>)"
    by (auto simp add: inspect_process_def split: sum.splits)
  then show ?thesis
    by (intro exI [of _ Normal] exI [of _ "[]"]) simp
qed

lemma inspect_process_frame:
  "inspect_process c p s =
     (fst (inspect_process c p \<lparr>ch = [], logs = []\<rparr>), s\<lparr>ch := ch s @ process_samples c p\<rparr>)"
proof -
  obtain r new where u: "\<And>s. inspect_process c p s = (r, s\<lparr>ch := ch s @ new\<rparr>)"
    using inspect_process_uniform [of c p] by blast
  show ?thesis
    unfolding process_samples_def u by simp
qed

lemma process_samples_desc:
  assumes "m \<in> set (process_samples c p)"
  shows "desc m = processArgDesc c"
    and "length (labelValues m) = length (variableLabels (processArgDesc c))"
proof -
  obtain r new where u: "\<And>s. inspect_process c p s = (r, s\<lparr>ch := ch s @ new\<rparr>)"
    and d: "\<forall>m \<in> set new. desc m = processArgDesc c
            \<and> length (labelValues m) = length (variableLabels (processArgDesc c))"
    using inspect_process_uniform [of c p] by blast
  have "process_samples c p = new"
    unfolding process_samples_def u by simp
  with assms d show "desc m = processArgDesc c"
    and "length (labelValues m) = length (variableLabels (processArgDesc c))" by auto
qed

lemma range_processes_uniform:
  "\<exists>r new. (\<forall>s. range_processes c ps s = (r, s\<lparr>ch := ch s @ new\<rparr>))
     \<and> (\<forall>m \<in> set new. desc m = processArgDesc c
            \<and> length (labelValues m) = length (variableLabels (processArgDesc c)))"
proof (induction ps)
  case Nil
  show ?case
    by (intro exI [of _ Normal] exI [of _ "[]"]) simp
next
  case (Cons p ps)
  obtain r1 new1 where
    s1: "\<And>s. inspect_process c p s = (r1, s\<lparr>ch := ch s @ new1\<rparr>)"
    and d1: "\<forall>m \<in> set new1. desc m = processArgDesc c
            \<and> length (labelValues m) = length (variableLabels (processArgDesc c))"
    using inspect_process_uniform [of c p] by blast
  obtain r2 new2 where
    s2: "\<And>s. range_processes c ps s = (r2, s\<lparr>ch := ch s @ new2\<rparr>)"
    and d2: "\<forall>m \<in> set new2. desc m = processArgDesc c
            \<and> length (labelValues m) = length (variableLabels (processArgDesc c))"
    using Cons.IH by blast
  show ?case
  proof (cases r1)
    case Normal
    then have "\<forall>s. range_processes c (p # ps) s = (r2, s\<lparr>ch := ch s @ (new1 @ new2)\<rparr>)"
      by (simp add: s1 s2)
    moreover have "\<forall>m \<in> set (new1 @ new2). desc m = processArgDesc c
            \<and> length (labelValues m) = length (variableLabels (processArgDesc c))"
      using d1 d2 by (simp add: ball_Un)
    ultimately show ?thesis
      by (intro exI [of _ r2] exI [of _ "new1 @ new2"] conjI)
  next
    case (Panic e)
    then have "\<forall>s. range_processes c (p # ps) s = (Panic e, s\<lparr>ch := ch s @ new1\<rparr>)"
      by (simp add: s1)
    with d1 show ?thesis
      by (intro exI [of _ "Panic e"] exI [of _ new1] conjI)
  qed
qed

lemma range_processes_frame:
  "range_processes c ps s =
     (fst (range_processes c ps \<lparr>ch = [], logs = []\<rparr>),
      s\<lparr>ch := ch s @ ch (snd (range_processes c ps \<lparr>ch = [], logs = []\<rparr>))\<rparr>)"
proof -
  obtain r new where u: "\<And>s. range_processes c ps s = (r, s\<lparr>ch := ch s @ new\<rparr>)"
    using range_processes_uniform [of c ps] by blast
  show ?thesis
    unfolding u by simp
qed

lemma range_processes_desc:
  assumes "m \<in> set (ch (snd (range_processes c ps \<lparr>ch = [], logs = []\<rparr>)))"
  shows "desc m = processArgDesc c"
    and "length (labelValues m) = length (variableLabels (processArgDesc c))"
proof -
  obtain r new where u: "\<And>s. range_processes c ps s = (r, s\<lparr>ch := ch s @ new\<rparr>)"
    and d: "\<forall>m \<in> set new. desc m = processArgDesc c
            \<and> length (labelValues m) = length (variableLabels (processArgDesc c))"
    using range_processes_uniform [of c ps] by blast
  have "ch (snd (range_processes c ps \<lparr>ch = [], logs = []\<rparr>)) = new"
    unfolding u by simp
  with assms d show "desc m = processArgDesc c"
    and "length (labelValues m) = length (variableLabels (processArgDesc c))" by auto
qed

lemma filter_range_processes:
  assumes "d \<noteq> processArgDesc c"
  shows "filter (\<lambda>m. desc m = d) (ch (snd (range_processes c ps \<lparr>ch = [], logs = []\<rparr>))) = []"
  using assms range_processes_desc(1) [of _ c ps]
  by (auto simp add: filter_empty_conv)





subsection \<open>The samples of one scrape, path by path\<close>

lemma json_Decode_valid:
  assumes "json_Decode env body = Inr runtimes"
    and "sv \<in> set (Items (ServerRuntimesResponse.Body runtimes))"
  shows "utf8_ValidString (Name sv)" and "utf8_ValidString (State sv)"
  using assms
  by (auto simp add: json_Decode_def ValidString_json_string split: sum.splits)

lemma find_first:
  "\<forall>x \<in> set pre. \<not> P x \<Longrightarrow> P y \<Longrightarrow> find P (pre @ y # post) = Some y"
  by (induction pre) simp_all

lemma find_Some_holds: "find P xs = Some y \<Longrightarrow> P y \<and> y \<in> set xs"
  by (induction xs) (auto split: if_splits)

lemma range_Items_find:
  assumes "length (variableLabels (serverStatusDesc c)) = 1"
    and "\<forall>sv \<in> set items. utf8_ValidString (Name sv)"
  shows "range_Items c items s =
     (case find (\<lambda>sv. Name sv = serverName c) items of
        None \<Rightarrow> (Normal, False, s)
      | Some sv \<Rightarrow>
          (Normal, True,
           s\<lparr>ch := ch s @ [\<lparr>desc = serverStatusDesc c, valType = GaugeValue,
                            val = (if State sv = ''RUNNING'' then 1 else 0),
                            labelValues = [Name sv]\<rparr>]\<rparr>))"
  using assms(2)
proof (induction items)
  case Nil
  then show ?case by simp
next
  case (Cons server rest)
  show ?case
  proof (cases "Name server = serverName c")
    case True
    have "list_all utf8_ValidString [Name server]" using Cons.prems by simp
    then show ?thesis
      using True assms(1) by (simp add: send_ok)
  next
    case False
    then show ?thesis using Cons by simp
  qed
qed

lemma Collect_all_paths:
  fixes a u pw n :: string and env :: Env
  defines "c \<equiv> NewProcessCollector a u pw n"
  defines "e \<equiv> \<lparr>ch = [], logs = []\<rparr>"
  shows "Collect c env =
     (case Client_Get env (client c)
             (a @ ''/management/weblogic/latest/domainRuntime/serverRuntimes'') of
        Inl err \<Rightarrow>
          (Normal,
           \<lparr>ch = [\<lparr>desc = adminUpDesc c, valType = GaugeValue, val = 0, labelValues = []\<rparr>],
            logs = [''Failed to connect to admin server: '' @ err]\<rparr>)
      | Inr resp \<Rightarrow>
          if StatusCode resp \<noteq> 200
          then (Normal,
                \<lparr>ch = [\<lparr>desc = adminUpDesc c, valType = GaugeValue, val = 0, labelValues = []\<rparr>],
                 logs = [''Admin server returned status: '' @ Status resp]\<rparr>)
          else
            (case json_Decode env (Response.Body resp) of
               Inl err \<Rightarrow>
                 (Normal,
                  \<lparr>ch = [\<lparr>desc = adminUpDesc c, valType = GaugeValue, val = 1, labelValues = []\<rparr>],
                   logs = [''Failed to parse server runtimes: '' @ err]\<rparr>)
             | Inr runtimes \<Rightarrow>
                 (case Processes env of
                    Inl err \<Rightarrow> Normal
                  | Inr processes \<Rightarrow> fst (range_processes c processes e),
                  \<lparr>ch = \<lparr>desc = adminUpDesc c, valType = GaugeValue, val = 1, labelValues = []\<rparr> #
                     (case find (\<lambda>sv. Name sv = n) (Items (ServerRuntimesResponse.Body runtimes)) of
                        None \<Rightarrow> []
                      | Some sv \<Rightarrow> [\<lparr>desc = serverStatusDesc c, valType = GaugeValue,
                                      val = (if State sv = ''RUNNING'' then 1 else 0),
                                      labelValues = [n]\<rparr>]) @
                     (case Processes env of
                        Inl err \<Rightarrow> []
                      | Inr processes \<Rightarrow> ch (snd (range_processes c processes e))),
                   logs =
                     (case find (\<lambda>sv. Name sv = n) (Items (ServerRuntimesResponse.Body runtimes)) of
                        None \<Rightarrow> [''Server '' @ n @ '' not found in domain'']
                      | Some sv \<Rightarrow> []) @
                     (case Processes env of
                        Inl err \<Rightarrow> [''Failed to retrieve processes: '' @ err]
                      | Inr processes \<Rightarrow> [])\<rparr>)))"
proof -
  have labels: "variableLabels (adminUpDesc c) = []"
      "length (variableLabels (serverStatusDesc c)) = 1"
    by (simp_all add: c_def NewProcessCollector_fields)
  have conf: "adminURL c = a" "serverName c = n"
    by (simp_all add: c_def NewProcessCollector_fields)
  have items: "range_Items c (Items (ServerRuntimesResponse.Body runtimes)) s =
     (case find (\<lambda>sv. Name sv = n) (Items (ServerRuntimesResponse.Body runtimes)) of
        None \<Rightarrow> (Normal, False, s)
      | Some sv \<Rightarrow>
          (Normal, True,
           s\<lparr>ch := ch s @ [\<lparr>desc = serverStatusDesc c, valType = GaugeValue,
                            val = (if State sv = ''RUNNING'' then 1 else 0),
                            labelValues = [n]\<rparr>]\<rparr>))"
    if "json_Decode env body = Inr runtimes" for body runtimes s
    using range_Items_find [OF labels(2), of "Items (ServerRuntimesResponse.Body runtimes)" s]
      json_Decode_valid(1) [OF that]
    by (auto simp add: conf split: option.splits dest: find_Some_holds)
  show ?thesis
  proof (cases "Client_Get env (client c)
             (a @ ''/management/weblogic/latest/domainRuntime/serverRuntimes'')")
    case (Inl err)
    then show ?thesis
      by (simp add: Collect_def conf labels send_ok log_Printf_def)
  next
    case (Inr resp)
    show ?thesis
    proof (cases "StatusCode resp = 200")
      case False
      with Inr show ?thesis
        by (simp add: Collect_def conf labels send_ok log_Printf_def http_StatusOK_def)
    next
      case True
      show ?thesis
      proof (cases "json_Decode env (Response.Body resp)")
        case (Inl err)
        with Inr True show ?thesis
          by (simp add: Collect_def conf labels send_ok log_Printf_def http_StatusOK_def)
      next
        case decoded: (Inr runtimes)
        show ?thesis
        proof (cases "Processes env")
          case (Inl err)
          with Inr True decoded show ?thesis
            by (simp add: Collect_def conf labels send_ok log_Printf_def http_StatusOK_def
                items [OF decoded] split: option.splits)
        next
          case procs: (Inr processes)
          obtain r new where
            loop: "\<And>s. range_processes c processes s = (r, s\<lparr>ch := ch s @ new\<rparr>)"
            using range_processes_uniform [of c processes] by blast
          show ?thesis
            using Inr True decoded procs
            by (simp add: Collect_def conf labels send_ok log_Printf_def http_StatusOK_def
                items [OF decoded] loop e_def split: option.splits)
        qed
      qed
    qed
  qed
qed

lemma samples_all_paths:
  fixes a u pw n :: string and env :: Env
  defines "c \<equiv> NewProcessCollector a u pw n"
  shows "samples c env =
     (case Client_Get env (client c)
             (a @ ''/management/weblogic/latest/domainRuntime/serverRuntimes'') of
        Inl err \<Rightarrow> [\<lparr>desc = adminUpDesc c, valType = GaugeValue, val = 0, labelValues = []\<rparr>]
      | Inr resp \<Rightarrow>
          if StatusCode resp \<noteq> 200
          then [\<lparr>desc = adminUpDesc c, valType = GaugeValue, val = 0, labelValues = []\<rparr>]
          else \<lparr>desc = adminUpDesc c, valType = GaugeValue, val = 1, labelValues = []\<rparr> #
            (case json_Decode env (Response.Body resp) of
               Inl err \<Rightarrow> []
             | Inr runtimes \<Rightarrow>
                 (case find (\<lambda>sv. Name sv = n) (Items (ServerRuntimesResponse.Body runtimes)) of
                    None \<Rightarrow> []
                  | Some sv \<Rightarrow> [\<lparr>desc = serverStatusDesc c, valType = GaugeValue,
                                  val = (if State sv = ''RUNNING'' then 1 else 0),
                                  labelValues = [n]\<rparr>]) @
                 (case Processes env of
                    Inl err \<Rightarrow> []
                  | Inr processes \<Rightarrow>
                      ch (snd (range_processes c processes \<lparr>ch = [], logs = []\<rparr>)))))"
  unfolding samples_def c_def Collect_all_paths
  by (simp split: sum.splits)




subsection \<open>Evaluation at concrete inputs\<close>

lemmas scrape_eval =
  collector0_def response_ok_def processes0_def env_refused_def env_not_json_def env_decoded_def
  process_latin1_def get_once_def answering_def
  Client_Get_def json_Decode_def RoundTrip_def Header_Set_def NewProcessCollector_fields
  process_samples_def inspect_process_def send_MustNewConstMetric_def NewConstMetric_def
  Sprintf_d_def nat_decimal.simps digit_char_def ldigits_def Let_def
  rune_size_def first_size_def accept_lo_def accept_hi_def locb_def hicb_def

section \<open>The claims\<close>

text \<open>
  C1, as the code has it. The three descriptors of a collector are
  \<open>weblogic_admin_server_up\<close> with no labels, \<open>weblogic_server_up\<close> with the one label
  \<open>server_name\<close>, and \<open>process_arg\<close> with the labels \<open>server_name\<close>, \<open>pid\<close>,
  \<open>index\<close>, \<open>value\<close>; none of them has constant labels. Every sample of every scrape,
  whatever the environment answers and however the scrape ends, belongs to one of these
  three descriptors and carries exactly the labels of its descriptor.
\<close>

theorem Collect_series_names:
  fixes a u pw n :: string and env :: Env
  defines "c \<equiv> NewProcessCollector a u pw n"
  shows "Describe c =
           [\<lparr>fqName = ''weblogic_admin_server_up'',
             help = ''Whether the WebLogic admin server is up (1 = up, 0 = down)'',
             variableLabels = [], constLabels = []\<rparr>,
            \<lparr>fqName = ''weblogic_server_up'',
             help = ''Whether the specified WebLogic server is up (1 = RUNNING, 0 = otherwise)'',
             variableLabels = [''server_name''], constLabels = []\<rparr>,
            \<lparr>fqName = ''process_arg'',
             help = ''Command-line arguments of the WebLogic process'',
             variableLabels = [''server_name'', ''pid'', ''index'', ''value''],
             constLabels = []\<rparr>]
       \<and> (\<forall>m \<in> set (samples c env).
             desc m \<in> set (Describe c) \<and> map fst (labelPairs m) = variableLabels (desc m))"
proof -
  have "desc m \<in> set (Describe c) \<and> map fst (labelPairs m) = variableLabels (desc m)"
    if "m \<in> set (samples c env)" for m
    using that range_processes_desc [of m c]
    unfolding c_def samples_all_paths
    by (auto simp add: Describe_def labelPairs_def NewProcessCollector_fields
        split: sum.splits option.splits if_splits)
  then show ?thesis
    by (simp add: Describe_def c_def NewProcessCollector_fields)
qed

text \<open>
  C1 at a concrete scrape that reaches every phase: the names and labels of the samples
  sent.
\<close>

theorem Collect_series_names_witness:
  "map (\<lambda>m. (fqName (desc m), labelPairs m))
     (samples collector0 (env_decoded [\<lparr>Name = ''ms1'', State = ''RUNNING''\<rparr>, \<lparr>Name = ''AdminServer'', State = ''RUNNING''\<rparr>] (Inr processes0)))
     = [(''weblogic_admin_server_up'', []),
        (''weblogic_server_up'', [(''server_name'', ''AdminServer'')]),
        (''process_arg'', [(''server_name'', ''AdminServer''), (''pid'', ''4242''),
           (''index'', ''0''), (''value'', ''java'')]),
        (''process_arg'', [(''server_name'', ''AdminServer''), (''pid'', ''4242''),
           (''index'', ''1''), (''value'', ''-Dweblogic.Name=AdminServer'')]),
        (''process_arg'', [(''server_name'', ''AdminServer''), (''pid'', ''4242''),
           (''index'', ''2''), (''value'', ''weblogic.Server'')])]
   \<and> set (map desc
          (samples collector0 (env_decoded [\<lparr>Name = ''ms1'', State = ''RUNNING''\<rparr>, \<lparr>Name = ''AdminServer'', State = ''RUNNING''\<rparr>] (Inr processes0))))
     \<subseteq> set (Describe collector0)
   \<and> map constLabels (Describe collector0) = [[], [], []]"
  using Collect_series_names [where a = "''http://localhost:7001''" and u = "''weblogic''"
      and pw = "''welcome1''" and n = "''AdminServer''"
      and env = "env_decoded [\<lparr>Name = ''ms1'', State = ''RUNNING''\<rparr>, \<lparr>Name = ''AdminServer'', State = ''RUNNING''\<rparr>] (Inr processes0)"]
  by (auto simp add: samples_def Collect_def http_StatusOK_def log_Printf_def scrape_eval
      labelPairs_def)

text \<open>
  C1 as the claim states it fails: the first two series are not named \<open>admin_up\<close> and
  \<open>server_up\<close>. In this scrape the names sent are not all among \<open>admin_up\<close>,
  \<open>server_up\<close> and \<open>process_arg\<close>.
\<close>

theorem Collect_series_names_counterexample:
  "map (\<lambda>m. fqName (desc m))
     (samples collector0 (env_decoded [\<lparr>Name = ''ms1'', State = ''RUNNING''\<rparr>, \<lparr>Name = ''AdminServer'', State = ''RUNNING''\<rparr>] (Inr processes0)))
     = [''weblogic_admin_server_up'', ''weblogic_server_up'',
        ''process_arg'', ''process_arg'', ''process_arg'']
   \<and> \<not> set (map (\<lambda>m. fqName (desc m))
            (samples collector0 (env_decoded [\<lparr>Name = ''ms1'', State = ''RUNNING''\<rparr>, \<lparr>Name = ''AdminServer'', State = ''RUNNING''\<rparr>] (Inr processes0))))
       \<subseteq> {''admin_up'', ''server_up'', ''process_arg''}"
  by (simp add: samples_def Collect_def http_StatusOK_def log_Printf_def scrape_eval)

text \<open>
  C2. When the GET fails (at transport level, or before anything is sent), or answers
  with a status other than 200, the scrape sends exactly one sample, the admin gauge
  with the number 0; it sends no sample of the server gauge and no \<open>process_arg\<close>
  sample, and it does not panic.
\<close>

theorem Collect_admin_down:
  fixes a u pw n :: string and env :: Env
  defines "c \<equiv> NewProcessCollector a u pw n"
  defines "got \<equiv> Client_Get env (client c)
                   (a @ ''/management/weblogic/latest/domainRuntime/serverRuntimes'')"
  assumes "(\<exists>err. got = Inl err) \<or> (\<exists>resp. got = Inr resp \<and> StatusCode resp \<noteq> 200)"
  shows "samples c env =
           [\<lparr>desc = adminUpDesc c, valType = GaugeValue, val = 0, labelValues = []\<rparr>]
       \<and> filter (\<lambda>m. desc m = serverStatusDesc c) (samples c env) = []
       \<and> filter (\<lambda>m. desc m = processArgDesc c) (samples c env) = []
       \<and> fst (Collect c env) = Normal"
proof -
  have "samples c env =
           [\<lparr>desc = adminUpDesc c, valType = GaugeValue, val = 0, labelValues = []\<rparr>]"
    using assms(3) unfolding got_def c_def
    by (auto simp add: samples_all_paths)
  moreover have "adminUpDesc c \<noteq> serverStatusDesc c" "adminUpDesc c \<noteq> processArgDesc c"
    by (simp_all add: c_def NewProcessCollector_fields)
  moreover have "fst (Collect c env) = Normal"
    using assms(3) unfolding got_def c_def
    by (auto simp add: Collect_all_paths)
  ultimately show ?thesis by simp
qed

text \<open>
  C2 at a concrete scrape: the connection is refused while a process with the marker
  token is running.
\<close>

theorem Collect_admin_down_witness:
  "Client_Get env_refused (client collector0)
     (''http://localhost:7001'' @ ''/management/weblogic/latest/domainRuntime/serverRuntimes'')
     = Inl ''connection refused''
   \<and> samples collector0 env_refused
     = [\<lparr>desc = adminUpDesc collector0, valType = GaugeValue, val = 0, labelValues = []\<rparr>]"
  using Collect_admin_down [where a = "''http://localhost:7001''" and u = "''weblogic''"
      and pw = "''welcome1''" and n = "''AdminServer''"
      and env = env_refused]
  by (simp add: scrape_eval)

text \<open>
  C3. When the GET answers 200, the body decodes, and \<open>server\<close> is the first item whose
  name is the configured server name (no item of \<open>pre\<close> has that name), the samples
  of the server gauge in the scrape are exactly one: its number is 1 if the state of
  \<open>server\<close> is the string \<open>RUNNING\<close> and 0 for any other state, and its label
  \<open>server_name\<close> is the configured name. It is sent right after the admin gauge.
\<close>

theorem Collect_server_up_first_match:
  fixes a u pw n :: string and env :: Env
  defines "c \<equiv> NewProcessCollector a u pw n"
  assumes "Client_Get env (client c)
             (a @ ''/management/weblogic/latest/domainRuntime/serverRuntimes'') = Inr resp"
    and "StatusCode resp = 200"
    and "json_Decode env (Response.Body resp) = Inr runtimes"
    and "Items (ServerRuntimesResponse.Body runtimes) = pre @ server # post"
    and "\<forall>sv \<in> set pre. Name sv \<noteq> n"
    and "Name server = n"
  shows "filter (\<lambda>m. desc m = serverStatusDesc c) (samples c env) =
           [\<lparr>desc = serverStatusDesc c, valType = GaugeValue,
             val = (if State server = ''RUNNING'' then 1 else 0), labelValues = [n]\<rparr>]
       \<and> take 2 (samples c env) =
           [\<lparr>desc = adminUpDesc c, valType = GaugeValue, val = 1, labelValues = []\<rparr>,
            \<lparr>desc = serverStatusDesc c, valType = GaugeValue,
             val = (if State server = ''RUNNING'' then 1 else 0), labelValues = [n]\<rparr>]
       \<and> labelPairs \<lparr>desc = serverStatusDesc c, valType = GaugeValue,
             val = (if State server = ''RUNNING'' then 1 else 0), labelValues = [n]\<rparr> =
           [(''server_name'', n)]"
proof -
  have ne: "serverStatusDesc c \<noteq> processArgDesc c" "adminUpDesc c \<noteq> serverStatusDesc c"
    by (simp_all add: c_def NewProcessCollector_fields)
  have found: "find (\<lambda>sv. Name sv = n) (Items (ServerRuntimesResponse.Body runtimes)) = Some server"
    using assms(5-7) by (simp add: find_first)
  have eq: "samples c env =
      \<lparr>desc = adminUpDesc c, valType = GaugeValue, val = 1, labelValues = []\<rparr> #
      \<lparr>desc = serverStatusDesc c, valType = GaugeValue,
        val = (if State server = ''RUNNING'' then 1 else 0), labelValues = [n]\<rparr> #
      (case Processes env of Inl err \<Rightarrow> []
       | Inr processes \<Rightarrow> ch (snd (range_processes c processes \<lparr>ch = [], logs = []\<rparr>)))"
    using assms(2-4) found unfolding c_def
    by (simp add: samples_all_paths)
  have "filter (\<lambda>m. desc m = serverStatusDesc c) (samples c env) =
           [\<lparr>desc = serverStatusDesc c, valType = GaugeValue,
             val = (if State server = ''RUNNING'' then 1 else 0), labelValues = [n]\<rparr>]"
    unfolding eq using filter_range_processes [OF ne(1)] ne
    by (simp split: sum.splits)
  moreover have "take 2 (samples c env) =
           [\<lparr>desc = adminUpDesc c, valType = GaugeValue, val = 1, labelValues = []\<rparr>,
            \<lparr>desc = serverStatusDesc c, valType = GaugeValue,
             val = (if State server = ''RUNNING'' then 1 else 0), labelValues = [n]\<rparr>]"
    unfolding eq by (simp add: numeral_2_eq_2)
  moreover have "labelPairs \<lparr>desc = serverStatusDesc c, valType = GaugeValue,
             val = (if State server = ''RUNNING'' then 1 else 0), labelValues = [n]\<rparr> =
           [(''server_name'', n)]"
    by (simp add: labelPairs_def c_def NewProcessCollector_fields)
  ultimately show ?thesis by blast
qed

text \<open>
  C3 at a concrete scrape: the first entry named \<open>AdminServer\<close> is shut down and a
  later one is running; the sample has the number 0.
\<close>

theorem Collect_server_up_first_match_witness:
  "Name \<lparr>Name = ''AdminServer'', State = ''SHUTDOWN''\<rparr> = ''AdminServer''
   \<and> Name \<lparr>Name = ''ms1'', State = ''RUNNING''\<rparr> \<noteq> ''AdminServer''
   \<and> filter (\<lambda>m. desc m = serverStatusDesc collector0)
        (samples collector0 (env_decoded [\<lparr>Name = ''ms1'', State = ''RUNNING''\<rparr>, \<lparr>Name = ''AdminServer'', State = ''SHUTDOWN''\<rparr>,
           \<lparr>Name = ''AdminServer'', State = ''RUNNING''\<rparr>] (Inr processes0)))
     = [\<lparr>desc = serverStatusDesc collector0, valType = GaugeValue, val = 0,
         labelValues = [''AdminServer'']\<rparr>]"
  using Collect_server_up_first_match [where a = "''http://localhost:7001''" and u = "''weblogic''"
      and pw = "''welcome1''" and n = "''AdminServer''"
      and env = "env_decoded [\<lparr>Name = ''ms1'', State = ''RUNNING''\<rparr>, \<lparr>Name = ''AdminServer'', State = ''SHUTDOWN''\<rparr>,
           \<lparr>Name = ''AdminServer'', State = ''RUNNING''\<rparr>] (Inr processes0)"
      and resp = response_ok
      and runtimes = "\<lparr>ServerRuntimesResponse.Body = \<lparr>Items = [\<lparr>Name = ''ms1'', State = ''RUNNING''\<rparr>,
           \<lparr>Name = ''AdminServer'', State = ''SHUTDOWN''\<rparr>, \<lparr>Name = ''AdminServer'', State = ''RUNNING''\<rparr>]\<rparr>\<rparr>"
      and pre = "[\<lparr>Name = ''ms1'', State = ''RUNNING''\<rparr>]" and server = "\<lparr>Name = ''AdminServer'', State = ''SHUTDOWN''\<rparr>"
      and post = "[\<lparr>Name = ''AdminServer'', State = ''RUNNING''\<rparr>]"]
  by (simp add: scrape_eval)

text \<open>
  C4. Every scrape sends at most one sample of the server gauge. The loop over the
  items leaves at an entry with the configured name: whatever follows that entry
  (\<open>post\<close>, entries of the same name included) changes neither the samples nor
  \<open>serverFound\<close>.
\<close>

theorem Collect_server_up_at_most_once:
  fixes a u pw n :: string and env :: Env
  defines "c \<equiv> NewProcessCollector a u pw n"
  shows "length (filter (\<lambda>m. desc m = serverStatusDesc c) (samples c env)) \<le> 1
       \<and> (Name server = n \<longrightarrow>
            range_Items c (pre @ server # post) s = range_Items c (pre @ [server]) s)"
proof -
  have ne: "serverStatusDesc c \<noteq> processArgDesc c" "adminUpDesc c \<noteq> serverStatusDesc c"
    by (simp_all add: c_def NewProcessCollector_fields)
  have "length (filter (\<lambda>m. desc m = serverStatusDesc c) (samples c env)) \<le> 1"
    unfolding c_def samples_all_paths
    using filter_range_processes [OF ne(1)] ne
    by (simp add: c_def split: sum.splits option.splits)
  moreover have "range_Items c (pre @ server # post) s = range_Items c (pre @ [server]) s"
    if "Name server = n"
    using that by (induction pre) (simp_all add: c_def NewProcessCollector_fields)
  ultimately show ?thesis by simp
qed

text \<open>
  C4 at a concrete scrape with two entries named \<open>AdminServer\<close>.
\<close>

theorem Collect_server_up_at_most_once_witness:
  "Name \<lparr>Name = ''AdminServer'', State = ''SHUTDOWN''\<rparr> = ''AdminServer''
   \<and> length (filter (\<lambda>m. desc m = serverStatusDesc collector0)
        (samples collector0 (env_decoded [\<lparr>Name = ''ms1'', State = ''RUNNING''\<rparr>, \<lparr>Name = ''AdminServer'', State = ''SHUTDOWN''\<rparr>,
           \<lparr>Name = ''AdminServer'', State = ''RUNNING''\<rparr>] (Inr processes0)))) \<le> 1
   \<and> range_Items collector0
         ([\<lparr>Name = ''ms1'', State = ''RUNNING''\<rparr>] @ \<lparr>Name = ''AdminServer'', State = ''SHUTDOWN''\<rparr> #
          [\<lparr>Name = ''AdminServer'', State = ''RUNNING''\<rparr>]) \<lparr>ch = [], logs = []\<rparr>
     = range_Items collector0
         ([\<lparr>Name = ''ms1'', State = ''RUNNING''\<rparr>] @ [\<lparr>Name = ''AdminServer'', State = ''SHUTDOWN''\<rparr>])
         \<lparr>ch = [], logs = []\<rparr>"
  using Collect_server_up_at_most_once [where a = "''http://localhost:7001''" and u = "''weblogic''"
      and pw = "''welcome1''" and n = "''AdminServer''"
      and env = "env_decoded [\<lparr>Name = ''ms1'', State = ''RUNNING''\<rparr>, \<lparr>Name = ''AdminServer'', State = ''SHUTDOWN''\<rparr>,
           \<lparr>Name = ''AdminServer'', State = ''RUNNING''\<rparr>] (Inr processes0)"
      and pre = "[\<lparr>Name = ''ms1'', State = ''RUNNING''\<rparr>]" and server = "\<lparr>Name = ''AdminServer'', State = ''SHUTDOWN''\<rparr>"
      and post = "[\<lparr>Name = ''AdminServer'', State = ''RUNNING''\<rparr>]" and s = "\<lparr>ch = [], logs = []\<rparr>"]
  by (simp add: collector0_def)

text \<open>
  C5. When the GET answers 200, the body decodes, and no item has the configured
  server name, the scrape has sent the admin gauge with the number 1 and logged that
  the server was not found, and from that state it goes on to the processes: it reads
  the process table and runs the process loop on it. Whatever the process loop does,
  the scrape holds exactly one sample of the admin gauge, with the number 1, and no
  sample of the server gauge.
\<close>

theorem Collect_server_absent:
  fixes a u pw n :: string and env :: Env
  defines "c \<equiv> NewProcessCollector a u pw n"
  defines "s \<equiv> \<lparr>ch = [\<lparr>desc = adminUpDesc c, valType = GaugeValue, val = 1, labelValues = []\<rparr>],
                 logs = [''Server '' @ n @ '' not found in domain'']\<rparr>"
  assumes "Client_Get env (client c)
             (a @ ''/management/weblogic/latest/domainRuntime/serverRuntimes'') = Inr resp"
    and "StatusCode resp = 200"
    and "json_Decode env (Response.Body resp) = Inr runtimes"
    and "\<forall>sv \<in> set (Items (ServerRuntimesResponse.Body runtimes)). Name sv \<noteq> n"
  shows "Collect c env =
           (case Processes env of
              Inl err \<Rightarrow> (Normal, log_Printf (''Failed to retrieve processes: '' @ err) s)
            | Inr processes \<Rightarrow> range_processes c processes s)
       \<and> filter (\<lambda>m. desc m = adminUpDesc c) (samples c env) =
           [\<lparr>desc = adminUpDesc c, valType = GaugeValue, val = 1, labelValues = []\<rparr>]
       \<and> filter (\<lambda>m. desc m = serverStatusDesc c) (samples c env) = []"
proof -
  have ne: "serverStatusDesc c \<noteq> processArgDesc c" "adminUpDesc c \<noteq> serverStatusDesc c"
    "adminUpDesc c \<noteq> processArgDesc c"
    by (simp_all add: c_def NewProcessCollector_fields)
  have conf: "adminURL c = a" "serverName c = n" "variableLabels (adminUpDesc c) = []"
    "length (variableLabels (serverStatusDesc c)) = 1"
    by (simp_all add: c_def NewProcessCollector_fields)
  have absent: "find (\<lambda>sv. Name sv = n) (Items (ServerRuntimesResponse.Body runtimes)) = None"
    using assms(6) by (simp add: find_None_iff)
  have valid: "\<forall>sv \<in> set (Items (ServerRuntimesResponse.Body runtimes)). utf8_ValidString (Name sv)"
    using json_Decode_valid(1) [OF assms(5)] by blast
  have run: "Collect c env =
           (case Processes env of
              Inl err \<Rightarrow> (Normal, log_Printf (''Failed to retrieve processes: '' @ err) s)
            | Inr processes \<Rightarrow> range_processes c processes s)"
    using assms(3-5) absent
    by (simp add: Collect_def Let_def conf send_ok log_Printf_def http_StatusOK_def s_def
        range_Items_find [OF conf(4) valid] split: sum.splits)
  have eq: "samples c env =
      \<lparr>desc = adminUpDesc c, valType = GaugeValue, val = 1, labelValues = []\<rparr> #
      (case Processes env of Inl err \<Rightarrow> []
       | Inr processes \<Rightarrow> ch (snd (range_processes c processes \<lparr>ch = [], logs = []\<rparr>)))"
    using assms(3-5) absent unfolding c_def
    by (simp add: samples_all_paths)
  have "filter (\<lambda>m. desc m = serverStatusDesc c) (samples c env) = []"
    unfolding eq using filter_range_processes [OF ne(1)] ne
    by (simp split: sum.splits)
  moreover have "filter (\<lambda>m. desc m = adminUpDesc c) (samples c env) =
           [\<lparr>desc = adminUpDesc c, valType = GaugeValue, val = 1, labelValues = []\<rparr>]"
    unfolding eq using filter_range_processes [OF ne(3)]
    by (simp split: sum.splits)
  ultimately show ?thesis using run by blast
qed

text \<open>
  C5 at a concrete scrape: the target server is absent, and the process with the marker
  token is still reported.
\<close>

theorem Collect_server_absent_witness:
  "Name \<lparr>Name = ''ms1'', State = ''RUNNING''\<rparr> \<noteq> ''AdminServer''
   \<and> Collect collector0 (env_decoded [\<lparr>Name = ''ms1'', State = ''RUNNING''\<rparr>] (Inr processes0))
     = (Normal,
        \<lparr>ch = [\<lparr>desc = adminUpDesc collector0, valType = GaugeValue, val = 1, labelValues = []\<rparr>,
               \<lparr>desc = processArgDesc collector0, valType = GaugeValue, val = 1,
                labelValues = [''AdminServer'', ''4242'', ''0'', ''java'']\<rparr>,
               \<lparr>desc = processArgDesc collector0, valType = GaugeValue, val = 1,
                labelValues = [''AdminServer'', ''4242'', ''1'', ''-Dweblogic.Name=AdminServer'']\<rparr>,
               \<lparr>desc = processArgDesc collector0, valType = GaugeValue, val = 1,
                labelValues = [''AdminServer'', ''4242'', ''2'', ''weblogic.Server'']\<rparr>],
         logs = [''Server AdminServer not found in domain'']\<rparr>)"
  using Collect_server_absent [where a = "''http://localhost:7001''" and u = "''weblogic''"
      and pw = "''welcome1''" and n = "''AdminServer''"
      and env = "env_decoded [\<lparr>Name = ''ms1'', State = ''RUNNING''\<rparr>] (Inr processes0)"
      and resp = response_ok
      and runtimes = "\<lparr>ServerRuntimesResponse.Body = \<lparr>Items = [\<lparr>Name = ''ms1'', State = ''RUNNING''\<rparr>]\<rparr>\<rparr>"]
  by (simp add: log_Printf_def scrape_eval)




text \<open>
  C7. When the GET answers 200 and the body does not decode, the scrape sends the admin
  gauge with the number 1 and nothing else: no sample of the server gauge, no
  \<open>process_arg\<close> sample.
\<close>

theorem Collect_decode_failure:
  fixes a u pw n :: string and env :: Env
  defines "c \<equiv> NewProcessCollector a u pw n"
  assumes "Client_Get env (client c)
             (a @ ''/management/weblogic/latest/domainRuntime/serverRuntimes'') = Inr resp"
    and "StatusCode resp = 200"
    and "json_Decode env (Response.Body resp) = Inl err"
  shows "samples c env =
           [\<lparr>desc = adminUpDesc c, valType = GaugeValue, val = 1, labelValues = []\<rparr>]
       \<and> filter (\<lambda>m. desc m = serverStatusDesc c) (samples c env) = []
       \<and> filter (\<lambda>m. desc m = processArgDesc c) (samples c env) = []
       \<and> fst (Collect c env) = Normal"
proof -
  have "samples c env =
           [\<lparr>desc = adminUpDesc c, valType = GaugeValue, val = 1, labelValues = []\<rparr>]"
    using assms(2-) unfolding c_def
    by (simp add: samples_all_paths)
  moreover have "adminUpDesc c \<noteq> serverStatusDesc c" "adminUpDesc c \<noteq> processArgDesc c"
    by (simp_all add: c_def NewProcessCollector_fields)
  moreover have "fst (Collect c env) = Normal"
    using assms(2-) unfolding c_def by (simp add: Collect_all_paths)
  ultimately show ?thesis by simp
qed

text \<open>
  C7 at a concrete scrape: status 200 with a body that is not JSON, while a process with
  the marker token is running.
\<close>

theorem Collect_decode_failure_witness:
  "samples collector0 env_not_json
     = [\<lparr>desc = adminUpDesc collector0, valType = GaugeValue, val = 1, labelValues = []\<rparr>]"
  using Collect_decode_failure [where a = "''http://localhost:7001''" and u = "''weblogic''"
      and pw = "''welcome1''" and n = "''AdminServer''"
      and env = env_not_json and resp = response_ok and err = "''invalid character''"]
  by (simp add: scrape_eval)

text \<open>
  C8. Whatever request is given to \<open>RoundTrip\<close> (any method, URL and headers), the
  request handed to the underlying transport is that request with its
  \<open>Authorization\<close> header set to the single entry \<open>Basic\<close>, a space, and the encoding
  of username, colon, password; the answer of the underlying transport is returned as
  it is. The encoding is the standard base64 one: the decoder of RFC 4648 reads the
  credentials back from it, it has four characters for every three bytes begun, and it
  uses only the standard alphabet and the padding character. The credentials of the
  transport of a collector are the ones given to \<open>NewProcessCollector\<close>. Every request
  of \<open>c.client.Get\<close> goes through this \<open>RoundTrip\<close> (\<open>Client_Get\<close>).
\<close>

theorem RoundTrip_basic_auth:
  fixes t :: basicAuthTransport and dt :: "Request \<Rightarrow> error + Response" and req :: Request
  defines "auth \<equiv> basicAuthTransport.username t @ '':'' @ basicAuthTransport.password t"
  defines "encoded \<equiv> StdEncoding_EncodeToString auth"
  shows "fst (RoundTrip t dt req) =
           req\<lparr>Header := (Header req)(''Authorization'' \<mapsto> [''Basic '' @ encoded])\<rparr>
       \<and> snd (RoundTrip t dt req) = dt (fst (RoundTrip t dt req))
       \<and> rfc4648_decode encoded = Some auth
       \<and> length encoded = 4 * ((length auth + 2) div 3)
       \<and> set encoded \<subseteq> set encodeStd \<union> {StdPadding}
       \<and> Transport (client (NewProcessCollector a u pw n)) =
           \<lparr>basicAuthTransport.username = u, basicAuthTransport.password = pw\<rparr>"
  unfolding auth_def encoded_def
  using set_EncodeToString
    [of "basicAuthTransport.username t @ '':'' @ basicAuthTransport.password t"]
  by (simp add: RoundTrip_def Header_Set_def NewProcessCollector_fields Let_def
      rfc4648_roundtrip length_EncodeToString)

text \<open>
  C8 at a concrete request to another host, which already carries \<open>Authorization\<close>
  entries: they are replaced by the one header for \<open>weblogic:welcome1\<close>.
\<close>

theorem RoundTrip_basic_auth_witness:
  "Header (fst (RoundTrip
       \<lparr>basicAuthTransport.username = ''weblogic'', basicAuthTransport.password = ''welcome1''\<rparr>
       (answering (Inl ''connection refused''))
       \<lparr>Method = ''POST'', URL = ''https://other.example:8443/any/path'',
        Header = [''Authorization'' \<mapsto> [''Bearer abc'', ''Bearer def'']]\<rparr>))
     ''Authorization''
     = Some [''Basic d2VibG9naWM6d2VsY29tZTE='']
   \<and> rfc4648_decode ''d2VibG9naWM6d2VsY29tZTE='' = Some ''weblogic:welcome1''"
  using RoundTrip_basic_auth [where
      t = "\<lparr>basicAuthTransport.username = ''weblogic'', basicAuthTransport.password = ''welcome1''\<rparr>"
      and dt = "answering (Inl ''connection refused'')"
      and req = "\<lparr>Method = ''POST'', URL = ''https://other.example:8443/any/path'',
        Header = [''Authorization'' \<mapsto> [''Bearer abc'', ''Bearer def'']]\<rparr>"]
  by (simp add: encode6_def encodeStd_def StdPadding_def)

text \<open>
  C9. Every scrape, whatever the environment answers, sends exactly one sample of the
  admin gauge. Its number is 1 when the GET answered with status 200 (also when the body
  then fails to decode, the server is absent or the process table cannot be read), and
  0 when the GET failed or answered with another status.
\<close>

theorem Collect_admin_up_once:
  fixes a u pw n :: string and env :: Env
  defines "c \<equiv> NewProcessCollector a u pw n"
  shows "filter (\<lambda>m. desc m = adminUpDesc c) (samples c env) =
     [\<lparr>desc = adminUpDesc c, valType = GaugeValue,
       val = (case Client_Get env (client c)
                     (a @ ''/management/weblogic/latest/domainRuntime/serverRuntimes'') of
                Inl err \<Rightarrow> 0
              | Inr resp \<Rightarrow> if StatusCode resp = 200 then 1 else 0),
       labelValues = []\<rparr>]"
proof -
  have ne: "adminUpDesc c \<noteq> processArgDesc c" "serverStatusDesc c \<noteq> adminUpDesc c"
    by (simp_all add: c_def NewProcessCollector_fields)
  show ?thesis
    unfolding c_def samples_all_paths
    using filter_range_processes [OF ne(1)] ne
    by (simp add: c_def split: sum.splits option.splits)
qed

text \<open>
  C9 at a concrete scrape in which the process table cannot be read.
\<close>

theorem Collect_admin_up_once_witness:
  "filter (\<lambda>m. desc m = adminUpDesc collector0)
     (samples collector0
        (env_decoded [\<lparr>Name = ''ms1'', State = ''RUNNING''\<rparr>, \<lparr>Name = ''AdminServer'', State = ''RUNNING''\<rparr>]
           (Inl ''open /proc: permission denied'')))
     = [\<lparr>desc = adminUpDesc collector0, valType = GaugeValue, val = 1, labelValues = []\<rparr>]"
  using Collect_admin_up_once [where a = "''http://localhost:7001''" and u = "''weblogic''"
      and pw = "''welcome1''" and n = "''AdminServer''"
      and env = "env_decoded [\<lparr>Name = ''ms1'', State = ''RUNNING''\<rparr>, \<lparr>Name = ''AdminServer'', State = ''RUNNING''\<rparr>]
           (Inl ''open /proc: permission denied'')"]
  by (simp add: scrape_eval)




end
